theory Spec2Isabelle
  imports Complex_Main "HOL-Library.Multiset" "HOL-Library.Log_Nat"
begin

section \<open>Python values used by mosaic.py\<close>

text \<open>
  Exceptions that the modelled functions of \<^verbatim>\<open>mosaic.py\<close> can raise. A function that
  can raise returns \<open>error + 'a\<close>, with \<open>Inl\<close> for the exception.
\<close>

datatype error =
    ZeroDivisionError
  | UnboundLocalError
  | ValueError
  | StopIteration
  | IndexError

text \<open>
  Python's \<^verbatim>\<open>int(q)\<close> on a float truncates towards zero. Floats are modelled as exact
  rationals: rounding of the binary representation is not part of the model.
\<close>

definition py_int :: "rat \<Rightarrow> int" where
  "py_int q = (if 0 \<le> q then \<lfloor>q\<rfloor> else \<lceil>q\<rceil>)"

section \<open>Geometry helpers\<close>

text \<open>\<^verbatim>\<open>def bound(low, high, value): return max(low, min(high, value))\<close>\<close>

definition bound :: "rat \<Rightarrow> rat \<Rightarrow> rat \<Rightarrow> rat" where
  "bound low high v = max low (min high v)"

type_synonym box = "rat \<times> rat \<times> rat \<times> rat"

text \<open>
  \<^verbatim>\<open>resize_box_aspect_crop_to_extent(img, target_aspect, centerpoint=None)\<close>.
  The image enters through \<^verbatim>\<open>img.size\<close> only, so the model takes the size.
  \<^verbatim>\<open>centerpoint\<close> is \<open>None\<close> or a pair; a given pair may hold any numbers. The two
  divisions raise \<^verbatim>\<open>ZeroDivisionError\<close> on a zero divisor.
\<close>

definition resize_box_aspect_crop_to_extent ::
  "int \<times> int \<Rightarrow> rat \<Rightarrow> (rat \<times> rat) option \<Rightarrow> error + box" where
  "resize_box_aspect_crop_to_extent img_size target_aspect centerpoint =
    (let width = fst img_size;
         height = snd img_size;
         cp = (case centerpoint of
                 None \<Rightarrow> (of_int (py_int (of_int width / 2)), of_int (py_int (of_int height / 2)))
               | Some c \<Rightarrow> c);
         requested_target_x = fst cp;
         requested_target_y = snd cp
     in if height = 0 then Inl ZeroDivisionError
        else
          let aspect = of_int width / of_int height
          in if aspect > target_aspect then
               let new_width = py_int (target_aspect * of_int height);
                   new_width_half = py_int (of_int new_width / 2);
                   target_x = bound (of_int new_width_half) (of_int (width - new_width_half))
                                requested_target_x;
                   left = target_x - of_int new_width_half;
                   right = target_x + of_int new_width_half
               in Inr (left, 0, right, of_int height)
             else if target_aspect = 0 then Inl ZeroDivisionError
             else
               let new_height = py_int (of_int width / target_aspect);
                   new_height_half = py_int (of_int new_height / 2);
                   target_y = bound (of_int new_height_half) (of_int (height - new_height_half))
                                requested_target_y;
                   top = target_y - of_int new_height_half;
                   bottom = target_y + of_int new_height_half
               in Inr (0, top, of_int width, bottom))"

section \<open>Traversal order\<close>

text \<open>
  Python's slices \<^verbatim>\<open>lst[:i]\<close> and \<^verbatim>\<open>lst[i:]\<close> for any integer \<open>i\<close>: a negative
  index counts from the end and is clamped at the start of the list.
\<close>

definition py_slice_to :: "'a list \<Rightarrow> int \<Rightarrow> 'a list" where
  "py_slice_to lst i =
     (if 0 \<le> i then take (nat i) lst else take (length lst - nat (- i)) lst)"

definition py_slice_from :: "'a list \<Rightarrow> int \<Rightarrow> 'a list" where
  "py_slice_from lst i =
     (if 0 \<le> i then drop (nat i) lst else drop (length lst - nat (- i)) lst)"

text \<open>
  \<^verbatim>\<open>shuffle_first_items(lst, i)\<close>. \<^verbatim>\<open>random.shuffle\<close> rearranges \<^verbatim>\<open>first_few\<close> in
  place; the outcome of the random draw is the parameter \<open>shuffle\<close>, the function
  that maps the list before the call to the list after it.
\<close>

definition shuffle_first_items :: "('a list \<Rightarrow> 'a list) \<Rightarrow> 'a list \<Rightarrow> int \<Rightarrow> 'a list" where
  "shuffle_first_items shuffle lst i =
     (if i = 0 then lst
      else
        let first_few = py_slice_to lst i;
            remaining = py_slice_from lst i
        in shuffle first_few @ remaining)"

text \<open>\<^verbatim>\<open>range(n)\<close> is \<open>0, ..., n - 1\<close>, empty for \<open>n \<le> 0\<close>.\<close>

definition py_range :: "int \<Rightarrow> int list" where
  "py_range n = [0..n - 1]"

text \<open>
  The sort key of \<^verbatim>\<open>coords_from_middle\<close>:
  \<^verbatim>\<open>lambda c: abs(c[0]-x_mid)*y_bias + abs(c[1]-y_mid)\<close>.
  \<^verbatim>\<open>y_bias\<close> is an \<^verbatim>\<open>int\<close> or a \<^verbatim>\<open>float\<close>, and Python multiplies and adds in the
  arithmetic of its type: exactly on \<^verbatim>\<open>int\<close>, rounded to a double on \<^verbatim>\<open>float\<close>. The
  two operations are the parameters \<open>mul\<close> (an \<^verbatim>\<open>int\<close> times \<^verbatim>\<open>y_bias\<close>) and \<open>add\<close>
  (the product plus an \<^verbatim>\<open>int\<close>); \<open>'k\<close> is the type of \<^verbatim>\<open>y_bias\<close> and of the key.
\<close>

definition middle_key ::
  "(int \<Rightarrow> 'k \<Rightarrow> 'k) \<Rightarrow> ('k \<Rightarrow> int \<Rightarrow> 'k) \<Rightarrow> int \<Rightarrow> int \<Rightarrow> 'k \<Rightarrow> int \<times> int \<Rightarrow> 'k" where
  "middle_key mul add x_mid y_mid y_bias c =
     add (mul \<bar>fst c - x_mid\<bar> y_bias) \<bar>snd c - y_mid\<bar>"

text \<open>
  \<^verbatim>\<open>coords_from_middle(x_count, y_count, y_bias=1, shuffle_first=0)\<close>.
  \<^verbatim>\<open>itertools.product(range(x_count), range(y_count))\<close> lists the pairs with \<open>x\<close>
  in the outer loop; \<^verbatim>\<open>list.sort(key=...)\<close> is a stable sort, as \<open>sort_key\<close> is.
  The keys are compared in a linear order, which leaves out a key that is NaN (it
  arises only from a \<^verbatim>\<open>y_bias\<close> that is NaN or infinite).
\<close>

definition coords_from_middle ::
  "((int \<times> int) list \<Rightarrow> (int \<times> int) list) \<Rightarrow> (int \<Rightarrow> 'k \<Rightarrow> 'k) \<Rightarrow> ('k \<Rightarrow> int \<Rightarrow> 'k)
     \<Rightarrow> int \<Rightarrow> int \<Rightarrow> 'k :: linorder \<Rightarrow> int \<Rightarrow> (int \<times> int) list" where
  "coords_from_middle shuffle mul add x_count y_count y_bias shuffle_first =
     (let x_mid = py_int (of_int x_count / 2);
          y_mid = py_int (of_int y_count / 2);
          coords = List.product (py_range x_count) (py_range y_count);
          coords = sort_key (middle_key mul add x_mid y_mid y_bias) coords
      in shuffle_first_items shuffle coords shuffle_first)"

text \<open>The arithmetic of Python's \<^verbatim>\<open>int\<close>, for an integer \<^verbatim>\<open>y_bias\<close>.\<close>

definition int_mul :: "int \<Rightarrow> int \<Rightarrow> int" where
  "int_mul n y = n * y"

definition int_add :: "int \<Rightarrow> int \<Rightarrow> int" where
  "int_add k n = k + n"

text \<open>
  The arithmetic of Python's \<^verbatim>\<open>float\<close>, a binary64 number of IEEE 754. A double is
  modelled as the rational it denotes, and an operation returns the exact result rounded
  to the nearest double, a tie going to the even significand. \<open>binary_exponent q\<close> is
  the \<open>e\<close> with \<open>2^e \<le> q < 2^(e+1)\<close> for a positive \<open>q\<close>, and a double of that
  magnitude is a multiple of \<open>2^(e-52)\<close>. Overflow to infinity and the subnormal
  numbers below \<open>2^(-1022)\<close> are not modelled, and integers are taken below \<open>2^53\<close>,
  where their conversion to a double is exact.
\<close>

definition round_half_even :: "rat \<Rightarrow> int" where
  "round_half_even q =
     (let f = \<lfloor>q\<rfloor>; d = q - of_int f
      in if d < 1 / 2 then f
         else if 1 / 2 < d then f + 1
         else if even f then f else f + 1)"

definition binary_exponent :: "rat \<Rightarrow> int" where
  "binary_exponent q =
     (let e0 = bitlen (fst (quotient_of q)) - bitlen (snd (quotient_of q))
      in if 2 powi e0 \<le> q then e0 else e0 - 1)"

definition double_round :: "rat \<Rightarrow> rat" where
  "double_round q =
     (if q = 0 then 0
      else
        let e = binary_exponent \<bar>q\<bar>;
            ulp = 2 powi (e - 52)
        in sgn q * of_int (round_half_even (\<bar>q\<bar> / ulp)) * ulp)"

definition double_mul :: "int \<Rightarrow> rat \<Rightarrow> rat" where
  "double_mul n y = double_round (of_int n * y)"

definition double_add :: "rat \<Rightarrow> int \<Rightarrow> rat" where
  "double_add k n = double_round (k + of_int n)"

text \<open>
  The key as the specification words it, with the grid centre at the exact halves
  \<open>x_count / 2\<close> and \<open>y_count / 2\<close>. It is used only to compare the specification
  with \<open>coords_from_middle\<close>.
\<close>

definition spec_middle_key :: "int \<Rightarrow> int \<Rightarrow> rat \<Rightarrow> int \<times> int \<Rightarrow> rat" where
  "spec_middle_key x_count y_count y_bias c =
     \<bar>of_int (fst c) - of_int x_count / 2\<bar> * y_bias + \<bar>of_int (snd c) - of_int y_count / 2\<bar>"

section \<open>Assignment of tiles to cells\<close>

text \<open>
  How the assembling loop of \<^verbatim>\<open>create_mosaic\<close> ends: it ran through all cells, it left
  by \<^verbatim>\<open>break\<close> on an empty availability set ("Ran out of tiles!"), or an exception
  left it. An interrupt from the keyboard is outside the model.
\<close>

datatype outcome = Completed | RanOut | Raised error

text \<open>
  One emitted assignment: what the loop hands to \<^verbatim>\<open>mosaic.add_tile\<close> (the tile and
  the box) and to \<^verbatim>\<open>build_instructions.add_tile\<close> (the name and the box), together
  with the chosen index \<open>j\<close>.
\<close>

record ('img, 'b) placement =
  tile_index :: nat
  tile :: 'img
  tile_name :: string
  cell_box :: 'b

text \<open>
  \<^verbatim>\<open>indeces = [int(j/4)*4 + k for k in range(3,-1,-1)]\<close>: the rotated copies of the
  tile that \<open>j\<close> belongs to.
\<close>

definition rotation_group :: "nat \<Rightarrow> nat list" where
  "rotation_group j = map (\<lambda>k. nat (py_int (of_nat j / 4)) * 4 + k) [3, 2, 1, 0]"

text \<open>
  The choice of one iteration. Without reuse,
  \<^verbatim>\<open>j = next(j for j in m if j in available)\<close> raises \<^verbatim>\<open>StopIteration\<close> when no
  index of the ranking is available, and the chosen index (with rotation its whole
  group) leaves the availability set. With reuse, \<^verbatim>\<open>j = m[0]\<close>, which raises
  \<^verbatim>\<open>IndexError\<close> on an empty ranking. \<open>rotate_on\<close> is \<^verbatim>\<open>config.rotate\<close>.
\<close>

definition choose_tile :: "bool \<Rightarrow> bool \<Rightarrow> nat set \<Rightarrow> nat list \<Rightarrow> error + (nat \<times> nat set)" where
  "choose_tile reuse rotate_on available m =
     (if \<not> reuse then
        (case find (\<lambda>j. j \<in> available) m of
           None \<Rightarrow> Inl StopIteration
         | Some j \<Rightarrow>
             let indeces = (if rotate_on then rotation_group j else [j])
             in Inr (j, available - set indeces))
      else
        (case m of
           [] \<Rightarrow> Inl IndexError
         | j # _ \<Rightarrow> Inr (j, available)))"

text \<open>
  The loop \<^verbatim>\<open>for i, m in enumerate(tqdm(matches))\<close>. A cell is the pair of its ranking
  \<^verbatim>\<open>matches[i]\<close> and its box \<^verbatim>\<open>boxes[i]\<close>; the two lists are filled together, one
  entry per cell. The result is the list of emitted assignments, in order, and how the
  loop ended; the assignments emitted before an exception stay emitted.
  \<^verbatim>\<open>tile_box.tiles[j]\<close> and \<^verbatim>\<open>tile_box.tile_names[j]\<close> raise \<^verbatim>\<open>IndexError\<close> out of
  range.
\<close>

fun assemble ::
  "bool \<Rightarrow> bool \<Rightarrow> 'img list \<Rightarrow> string list \<Rightarrow> nat set \<Rightarrow> (nat list \<times> 'b) list
     \<Rightarrow> ('img, 'b) placement list \<times> outcome" where
  "assemble reuse rotate_on tiles names available [] = ([], Completed)"
| "assemble reuse rotate_on tiles names available ((m, b) # rest) =
     (if available = {} then ([], RanOut)
      else
        (case choose_tile reuse rotate_on available m of
           Inl e \<Rightarrow> ([], Raised e)
         | Inr (j, available') \<Rightarrow>
             if j < length tiles \<and> j < length names then
               let (placed, out) = assemble reuse rotate_on tiles names available' rest
               in (\<lparr>tile_index = j, tile = tiles ! j, tile_name = names ! j, cell_box = b\<rparr>
                     # placed, out)
             else ([], Raised IndexError)))"

text \<open>
  The loop as \<^verbatim>\<open>create_mosaic\<close> starts it:
  \<^verbatim>\<open>available = set([i for i in range(len(tile_box.tiles))])\<close>.
\<close>

definition assemble_mosaic ::
  "bool \<Rightarrow> bool \<Rightarrow> 'img list \<Rightarrow> string list \<Rightarrow> (nat list \<times> 'b) list
     \<Rightarrow> ('img, 'b) placement list \<times> outcome" where
  "assemble_mosaic reuse rotate_on tiles names cells =
     assemble reuse rotate_on tiles names (set [0..<length tiles]) cells"

section \<open>Configuration\<close>

text \<open>
  \<^verbatim>\<open>class Config\<close>. The field \<^verbatim>\<open>rotate\<close> is named \<open>rotate_tiles\<close> here.
\<close>

record config =
  tile_ratio :: rat
  match_width :: int
  tile_width :: int
  enlargement :: rat
  color_mode :: string
  rotate_tiles :: bool

text \<open>
  \<^verbatim>\<open>Config.__init__\<close> stores its six arguments and checks none of them. The arguments
  are primed to keep them apart from the fields.
\<close>

definition Config :: "rat \<Rightarrow> int \<Rightarrow> int \<Rightarrow> rat \<Rightarrow> string \<Rightarrow> bool \<Rightarrow> error + config" where
  "Config tile_ratio' tile_width' match_width' enlargement' color_mode' rotate' =
     Inr \<lparr>tile_ratio = tile_ratio', match_width = match_width', tile_width = tile_width',
          enlargement = enlargement', color_mode = color_mode', rotate_tiles = rotate'\<rparr>"

text \<open>
  The property \<^verbatim>\<open>tile_height\<close>: \<^verbatim>\<open>int(self.tile_width / self.tile_ratio)\<close>, which
  raises \<^verbatim>\<open>ZeroDivisionError\<close> for a zero ratio, and \<^verbatim>\<open>tile_size\<close>.
\<close>

definition tile_height :: "config \<Rightarrow> error + int" where
  "tile_height cfg =
     (if tile_ratio cfg = 0 then Inl ZeroDivisionError
      else Inr (py_int (of_int (tile_width cfg) / tile_ratio cfg)))"

definition tile_size :: "config \<Rightarrow> error + int \<times> int" where
  "tile_size cfg =
     (case tile_height cfg of
        Inl e \<Rightarrow> Inl e
      | Inr th \<Rightarrow> Inr (tile_width cfg, th))"

section \<open>Tile pool and ranking\<close>

text \<open>
  \<^verbatim>\<open>class TileBox\<close>, its fields prefixed with \<open>tb\<close>. \<^verbatim>\<open>tile_array\<close> holds one sample
  per tile: the pixel values of the tile resized to the match size, flattened to one
  list. The values are exact rationals; the rounding of \<^verbatim>\<open>float32\<close> is not modelled.
\<close>

record 'img tile_box =
  tb_config :: config
  tb_tiles :: "'img list"
  tb_tile_names :: "string list"
  tb_tile_array :: "rat list list"

text \<open>
  The mean over the pixel and channel axes of the squared difference of a sample and
  the block: one entry of
  \<^verbatim>\<open>((self.tile_array - a.reshape((1,) + a.shape))**2).mean((1,2,3))\<close> in mode
  \<^verbatim>\<open>'RGB'\<close>, and of the same expression with \<^verbatim>\<open>.mean((1,2))\<close> in mode \<^verbatim>\<open>'L'\<close>, where
  a pixel has one channel. On the flattened sample both are the mean over the whole list.
\<close>

definition mean_sq_diff :: "rat list \<Rightarrow> rat list \<Rightarrow> rat" where
  "mean_sq_diff t a = sum_list (map2 (\<lambda>u v. (u - v)\<^sup>2) t a) / of_nat (length a)"

text \<open>
  The array \<^verbatim>\<open>match_results\<close>. The subtraction raises numpy's broadcasting
  \<^verbatim>\<open>ValueError\<close> when the shapes do not fit: here, when the pool is empty or a sample
  and the block differ in size.
\<close>

definition sq_diff_means :: "rat list list \<Rightarrow> rat list \<Rightarrow> error + rat list" where
  "sq_diff_means arr a =
     (if arr = [] \<or> \<not> list_all (\<lambda>t. length t = length a) arr then Inl ValueError
      else Inr (map (\<lambda>t. mean_sq_diff t a) arr))"

text \<open>
  \<^verbatim>\<open>TileBox.best_tile_block_match\<close>. When \<^verbatim>\<open>color_mode\<close> is neither \<^verbatim>\<open>'RGB'\<close> nor
  \<^verbatim>\<open>'L'\<close> no branch binds \<^verbatim>\<open>match_results\<close> and the \<^verbatim>\<open>return\<close> raises
  \<^verbatim>\<open>UnboundLocalError\<close>. \<^verbatim>\<open>match_results.argsort()\<close> is numpy's; it is the parameter
  \<open>argsort\<close>.
\<close>

definition best_tile_block_match ::
  "(rat list \<Rightarrow> nat list) \<Rightarrow> 'img tile_box \<Rightarrow> rat list \<Rightarrow> error + nat list" where
  "best_tile_block_match argsort tb tile_block_original =
     (let a = tile_block_original
      in if color_mode (tb_config tb) = ''RGB'' then
           (case sq_diff_means (tb_tile_array tb) a of
              Inl e \<Rightarrow> Inl e
            | Inr match_results \<Rightarrow> Inr (argsort match_results))
         else if color_mode (tb_config tb) = ''L'' then
           (case sq_diff_means (tb_tile_array tb) a of
              Inl e \<Rightarrow> Inl e
            | Inr match_results \<Rightarrow> Inr (argsort match_results))
         else Inl UnboundLocalError)"

text \<open>
  A function that \<^verbatim>\<open>argsort\<close> can stand for in a closed instance: a stable sort of the
  indices by their values.
\<close>

definition argsort_stable :: "rat list \<Rightarrow> nat list" where
  "argsort_stable xs = sort_key (\<lambda>i. xs ! i) [0..<length xs]"

section \<open>Properties of the aspect crop\<close>

lemma py_int_nonneg: "0 \<le> q \<Longrightarrow> 0 \<le> py_int q"
  by (simp add: py_int_def)

lemma py_int_le: "0 \<le> q \<Longrightarrow> q \<le> of_int n \<Longrightarrow> py_int q \<le> n"
  by (simp add: py_int_def floor_le_iff)

lemma py_int_half: "0 \<le> n \<Longrightarrow> py_int (of_int n / 2) = n div 2"
proof -
  assume "0 \<le> n"
  then have "(0::rat) \<le> of_int n / 2" by simp
  moreover have "\<lfloor>(of_int n :: rat) / 2\<rfloor> = n div 2"
    using floor_divide_of_int_eq [of n 2, where ?'a = rat] by simp
  ultimately show ?thesis by (simp add: py_int_def)
qed

lemma bound_between:
  "low \<le> high \<Longrightarrow> low \<le> bound low high v \<and> bound low high v \<le> high"
  by (auto simp: bound_def)

text \<open>
  C10. For an image of positive width and height, a positive target aspect and any
  centerpoint (absent, inside or outside the image), the function returns a box
  \<open>(left, top, right, bottom)\<close> with \<open>0 \<le> left \<le> right \<le> width\<close> and
  \<open>0 \<le> top \<le> bottom \<le> height\<close>.
\<close>

theorem aspect_crop_box_within_image:
  assumes "0 < width" and "0 < height" and "0 < target_aspect"
  shows "\<exists>left top right bottom.
           resize_box_aspect_crop_to_extent (width, height) target_aspect centerpoint
             = Inr (left, top, right, bottom)
           \<and> 0 \<le> left \<and> left \<le> right \<and> right \<le> of_int width
           \<and> 0 \<le> top \<and> top \<le> bottom \<and> bottom \<le> of_int height"
proof (cases "of_int width / of_int height > target_aspect")
  case True
  define nw where "nw = py_int (target_aspect * of_int height)"
  define hw where "hw = py_int (of_int nw / 2)"
  define cx where "cx = fst (case centerpoint of
      None \<Rightarrow> (of_int (py_int (of_int width / 2)), of_int (py_int (of_int height / 2)))
    | Some c \<Rightarrow> c)"
  define tx where "tx = bound (of_int hw) (of_int (width - hw)) cx"
  have prod: "target_aspect * of_int height < of_int width"
    using True assms(2) by (simp add: pos_less_divide_eq)
  have nw0: "0 \<le> nw"
    unfolding nw_def using assms by (intro py_int_nonneg) simp
  have nww: "nw \<le> width"
    unfolding nw_def using assms prod by (intro py_int_le) simp_all
  have hw_eq: "hw = nw div 2"
    unfolding hw_def using nw0 by (rule py_int_half)
  have hw0: "0 \<le> hw" and hw2: "2 * hw \<le> width"
    using hw_eq nw0 nww by simp_all
  have "(of_int hw :: rat) \<le> of_int (width - hw)"
    using hw2 by simp
  then have b: "of_int hw \<le> tx" "tx \<le> of_int (width - hw)"
    unfolding tx_def using bound_between by blast+
  have eq: "resize_box_aspect_crop_to_extent (width, height) target_aspect centerpoint
      = Inr (tx - of_int hw, 0, tx + of_int hw, of_int height)"
    using True assms(2)
    by (simp add: resize_box_aspect_crop_to_extent_def Let_def tx_def hw_def nw_def cx_def)
  have "(0::rat) \<le> of_int hw" using hw0 by simp
  with b have "0 \<le> tx - of_int hw" "tx - of_int hw \<le> tx + of_int hw"
      "tx + of_int hw \<le> of_int width"
    by simp_all
  moreover have "(0::rat) \<le> of_int height" using assms(2) by simp
  ultimately show ?thesis using eq by simp
next
  case False
  define nh where "nh = py_int (of_int width / target_aspect)"
  define hh where "hh = py_int (of_int nh / 2)"
  define cy where "cy = snd (case centerpoint of
      None \<Rightarrow> (of_int (py_int (of_int width / 2)), of_int (py_int (of_int height / 2)))
    | Some c \<Rightarrow> c)"
  define ty where "ty = bound (of_int hh) (of_int (height - hh)) cy"
  have "of_int width / of_int height \<le> target_aspect"
    using False by simp
  then have "of_int width \<le> target_aspect * of_int height"
    using assms(2) by (simp add: pos_divide_le_eq)
  then have quot: "of_int width / target_aspect \<le> of_int height"
    using assms(3) by (simp add: pos_divide_le_eq mult.commute)
  have nh0: "0 \<le> nh"
    unfolding nh_def using assms by (intro py_int_nonneg) simp
  have nhh: "nh \<le> height"
    unfolding nh_def using assms quot by (intro py_int_le) simp_all
  have hh_eq: "hh = nh div 2"
    unfolding hh_def using nh0 by (rule py_int_half)
  have hh0: "0 \<le> hh" and hh2: "2 * hh \<le> height"
    using hh_eq nh0 nhh by simp_all
  have "(of_int hh :: rat) \<le> of_int (height - hh)"
    using hh2 by simp
  then have b: "of_int hh \<le> ty" "ty \<le> of_int (height - hh)"
    unfolding ty_def using bound_between by blast+
  have eq: "resize_box_aspect_crop_to_extent (width, height) target_aspect centerpoint
      = Inr (0, ty - of_int hh, of_int width, ty + of_int hh)"
    using False assms(2,3)
    by (simp add: resize_box_aspect_crop_to_extent_def Let_def ty_def hh_def nh_def cy_def)
  have "(0::rat) \<le> of_int hh" using hh0 by simp
  with b have "0 \<le> ty - of_int hh" "ty - of_int hh \<le> ty + of_int hh"
      "ty + of_int hh \<le> of_int height"
    by simp_all
  moreover have "(0::rat) \<le> of_int width" using assms(1) by simp
  ultimately show ?thesis using eq by simp
qed

theorem aspect_crop_box_within_image_witness:
  "resize_box_aspect_crop_to_extent (100, 50) 1 (Some (1000, - 5)) = Inr (50, 0, 100, 50)
   \<and> (\<exists>left top right bottom.
           resize_box_aspect_crop_to_extent (100, 50) 1 (Some (1000, - 5))
             = Inr (left, top, right, bottom)
           \<and> 0 \<le> left \<and> left \<le> right \<and> right \<le> of_int 100
           \<and> 0 \<le> top \<and> top \<le> bottom \<and> bottom \<le> of_int 50)"
proof -
  have "resize_box_aspect_crop_to_extent (100, 50) 1 (Some (1000, - 5)) = Inr (50, 0, 100, 50)"
    by (simp add: resize_box_aspect_crop_to_extent_def Let_def py_int_def bound_def)
  moreover have "(0::int) < 100" "(0::int) < 50" "(0::rat) < 1" by simp_all
  ultimately show ?thesis
    using aspect_crop_box_within_image [of 100 50 1 "Some (1000, - 5)"] by simp
qed

section \<open>Properties of the traversal order\<close>

lemma mset_py_slices: "mset (py_slice_to lst i) + mset (py_slice_from lst i) = mset lst"
proof -
  have "mset (take n lst) + mset (drop n lst) = mset lst" for n
    by (metis append_take_drop_id mset_append)
  then show ?thesis
    by (simp add: py_slice_to_def py_slice_from_def)
qed

lemma mset_shuffle_first_items:
  assumes "\<And>xs. mset (shuffle xs) = mset xs"
  shows "mset (shuffle_first_items shuffle lst i) = mset lst"
  using assms mset_py_slices [of lst i]
  by (simp add: shuffle_first_items_def Let_def)

lemma distinct_grid: "distinct (List.product (py_range x_count) (py_range y_count))"
  by (simp add: py_range_def distinct_product)

lemma set_grid:
  "set (List.product (py_range x_count) (py_range y_count)) = {0..<x_count} \<times> {0..<y_count}"
  by (auto simp: py_range_def)

lemma length_grid:
  "0 \<le> x_count \<Longrightarrow> 0 \<le> y_count \<Longrightarrow>
   int (length (List.product (py_range x_count) (py_range y_count))) = x_count * y_count"
  by (simp add: py_range_def nat_mult_distrib)

lemma bitlen_rat_bounds:
  assumes "0 < a"
  shows "(2::rat) powi (bitlen a - 1) \<le> of_int a \<and> of_int a < (2::rat) powi bitlen a"
proof -
  from bitlen_bounds [OF assms]
  have 1: "2 ^ nat (bitlen a - 1) \<le> a" and 2: "a < 2 ^ nat (bitlen a)" by simp_all
  have l: "1 \<le> bitlen a"
    using assms by (auto simp: bitlen_alt_def)
  have "(of_int (2 ^ nat (bitlen a - 1)) :: rat) \<le> of_int a"
    using 1 by (simp only: of_int_le_iff)
  moreover have "(of_int a :: rat) < of_int (2 ^ nat (bitlen a))"
    using 2 by (simp only: of_int_less_iff)
  ultimately show ?thesis
    using l by (simp add: power_int_def)
qed

text \<open>\<open>binary_exponent\<close> is the exponent of the binade of a positive number.\<close>

lemma binary_exponent_bounds:
  assumes "0 < q"
  shows "2 powi binary_exponent q \<le> q \<and> q < 2 powi (binary_exponent q + 1)"
proof -
  obtain a b where ab: "quotient_of q = (a, b)" by (cases "quotient_of q")
  then have b: "0 < b" and q: "q = of_int a / of_int b"
    using quotient_of_denom_pos [OF ab] quotient_of_div [OF ab] by simp_all
  with assms have a: "0 < a"
    by (simp add: zero_less_divide_iff)
  define e0 where "e0 = bitlen a - bitlen b"
  have ra: "(2::rat) powi (bitlen a - 1) \<le> of_int a" "of_int a < (2::rat) powi bitlen a"
    and rb: "(2::rat) powi (bitlen b - 1) \<le> of_int b" "of_int b < (2::rat) powi bitlen b"
    using bitlen_rat_bounds [OF a] bitlen_rat_bounds [OF b] by simp_all
  have pb: "(0::rat) < of_int b" and pa: "(0::rat) < of_int a" using a b by simp_all
  have p1: "(0::rat) < 2 powi (bitlen b - 1)"
    by simp
  have "q < 2 powi bitlen a / 2 powi (bitlen b - 1)"
    unfolding q using ra(2) rb(1) pa p1 by (intro frac_less) simp_all
  also have "\<dots> = 2 powi (e0 + 1)"
    by (simp add: e0_def power_int_diff [symmetric] algebra_simps)
  finally have up: "q < 2 powi (e0 + 1)" .
  have "2 powi (bitlen a - 1) / 2 powi bitlen b < q"
    unfolding q using ra(1) rb(2) pb
    by (intro frac_less2) simp_all
  moreover have "(2::rat) powi (bitlen a - 1) / 2 powi bitlen b = 2 powi (e0 - 1)"
    by (simp add: e0_def power_int_diff [symmetric] algebra_simps)
  ultimately have lo: "2 powi (e0 - 1) < q" by simp
  have be: "binary_exponent q = (if 2 powi e0 \<le> q then e0 else e0 - 1)"
    by (simp add: binary_exponent_def ab e0_def Let_def)
  show ?thesis
    using up lo by (auto simp: be)
qed

text \<open>
  C5, as amended. With \<open>shuffle_first = 0\<close> the traversal order is the column-major
  enumeration of the grid (\<open>x\<close> outer, \<open>y\<close> inner) sorted by the key
  \<open>|x - x_mid| * y_bias + |y - y_mid|\<close> where \<open>x_mid = int(x_count / 2)\<close> and
  \<open>y_mid = int(y_count / 2)\<close> are the truncated halves: the keys are non-decreasing
  along the result, the result is a rearrangement of the enumeration, and the cells of
  equal key keep their enumeration order. The key is the value that Python computes,
  in the arithmetic of \<^verbatim>\<open>y_bias\<close>: the statement holds for every \<open>mul\<close> and \<open>add\<close>.
\<close>

theorem coords_from_middle_sorted_stable:
  "sorted (map (middle_key mul add (py_int (of_int x_count / 2)) (py_int (of_int y_count / 2))
                  y_bias)
       (coords_from_middle shuffle mul add x_count y_count y_bias 0))
   \<and> mset (coords_from_middle shuffle mul add x_count y_count y_bias 0)
       = mset (List.product (py_range x_count) (py_range y_count))
   \<and> (\<forall>k. filter (\<lambda>c. middle_key mul add (py_int (of_int x_count / 2))
                        (py_int (of_int y_count / 2)) y_bias c = k)
              (coords_from_middle shuffle mul add x_count y_count y_bias 0)
          = filter (\<lambda>c. middle_key mul add (py_int (of_int x_count / 2))
                        (py_int (of_int y_count / 2)) y_bias c = k)
              (List.product (py_range x_count) (py_range y_count)))"
  by (simp add: coords_from_middle_def shuffle_first_items_def Let_def sort_key_stable)

text \<open>
  Two runs of it. With the integer bias \<open>2\<close> on a grid of 3 by 2 the centre cell
  \<open>(1,1)\<close> comes first and the two corners of key \<open>3\<close> last, in enumeration order.
  With the float bias \<open>0.2\<close> (the double \<open>3602879701896397 / 2^54\<close>) on a grid of 12
  by 2 the rounding of the doubles decides the order. The product \<open>5 * 0.2\<close> rounds to
  \<open>1\<close>, so \<open>(1,1)\<close>, \<open>(6,0)\<close> and \<open>(11,1)\<close> tie at key \<open>1\<close> and keep their
  enumeration order. The product \<open>6 * 0.2\<close> rounds to a double above the sum
  \<open>0.2 + 1\<close>, so \<open>(0,1)\<close> comes after \<open>(5,0)\<close> and \<open>(7,0)\<close>.
\<close>

theorem coords_from_middle_sorted_stable_witness:
  "coords_from_middle id int_mul int_add 3 2 2 0
     = [(1, 1), (1, 0), (0, 1), (2, 1), (0, 0), (2, 0)]
   \<and> sorted (map (middle_key int_mul int_add 1 1 2)
        [(1, 1), (1, 0), (0, 1), (2, 1), (0, 0), (2, 0)])
   \<and> double_round (1 / 5) = 3602879701896397 / 18014398509481984
   \<and> coords_from_middle id double_mul double_add 12 2 (double_round (1 / 5)) 0
     = [(6, 1), (5, 1), (7, 1), (4, 1), (8, 1), (3, 1), (9, 1), (2, 1), (10, 1), (1, 1),
        (6, 0), (11, 1), (5, 0), (7, 0), (0, 1), (4, 0), (8, 0), (3, 0), (9, 0), (2, 0),
        (10, 0), (1, 0), (11, 0), (0, 0)]
   \<and> sorted (map (middle_key double_mul double_add 6 1 (double_round (1 / 5)))
       (coords_from_middle id double_mul double_add 12 2 (double_round (1 / 5)) 0))"
proof -
  have r: "py_range 3 = [0, 1, 2]" "py_range 2 = [0, 1]"
    "py_range 12 = [0, 1, 2, 3, 4, 5, 6, 7, 8, 9, 10, 11]"
    by (simp_all add: py_range_def upto.simps)
  have m: "py_int (3 / 2) = 1" "py_int (2 / 2) = 1" "py_int (12 / 2) = 6"
    using py_int_half [of 3] py_int_half [of 2] py_int_half [of 12] by simp_all
  have i: "coords_from_middle id int_mul int_add 3 2 2 0
      = [(1, 1), (1, 0), (0, 1), (2, 1), (0, 0), (2, 0)]"
    using m by (simp add: coords_from_middle_def shuffle_first_items_def Let_def r
        middle_key_def int_mul_def int_add_def)
  have d: "double_round (1 / 5) = 3602879701896397 / 18014398509481984"
    by code_simp
  have k:
    "double_add (double_mul 0 (double_round (1 / 5))) 0 = 0"
    "double_add (double_mul 0 (double_round (1 / 5))) 1 = 1"
    "double_add (double_mul 1 (double_round (1 / 5))) 0 = 3602879701896397 / 18014398509481984"
    "double_add (double_mul 1 (double_round (1 / 5))) 1 = 5404319552844595 / 4503599627370496"
    "double_add (double_mul 2 (double_round (1 / 5))) 0 = 3602879701896397 / 9007199254740992"
    "double_add (double_mul 2 (double_round (1 / 5))) 1 = 3152519739159347 / 2251799813685248"
    "double_add (double_mul 3 (double_round (1 / 5))) 0 = 1351079888211149 / 2251799813685248"
    "double_add (double_mul 3 (double_round (1 / 5))) 1 = 3602879701896397 / 2251799813685248"
    "double_add (double_mul 4 (double_round (1 / 5))) 0 = 3602879701896397 / 4503599627370496"
    "double_add (double_mul 4 (double_round (1 / 5))) 1 = 8106479329266893 / 4503599627370496"
    "double_add (double_mul 5 (double_round (1 / 5))) 0 = 1"
    "double_add (double_mul 5 (double_round (1 / 5))) 1 = 2"
    "double_add (double_mul 6 (double_round (1 / 5))) 0 = 1351079888211149 / 1125899906842624"
    "double_add (double_mul 6 (double_round (1 / 5))) 1 = 2476979795053773 / 1125899906842624"
    by code_simp+
  have f: "coords_from_middle id double_mul double_add 12 2 (double_round (1 / 5)) 0
      = [(6, 1), (5, 1), (7, 1), (4, 1), (8, 1), (3, 1), (9, 1), (2, 1), (10, 1), (1, 1),
        (6, 0), (11, 1), (5, 0), (7, 0), (0, 1), (4, 0), (8, 0), (3, 0), (9, 0), (2, 0),
        (10, 0), (1, 0), (11, 0), (0, 0)]"
    using m by (simp add: coords_from_middle_def shuffle_first_items_def Let_def r
        middle_key_def k)
  have s1: "sorted (map (middle_key int_mul int_add 1 1 2)
      (coords_from_middle id int_mul int_add 3 2 2 0))"
    using coords_from_middle_sorted_stable [THEN conjunct1, of int_mul int_add 3 2 2 id] m
    by simp
  have s2: "sorted (map (middle_key double_mul double_add 6 1 (double_round (1 / 5)))
      (coords_from_middle id double_mul double_add 12 2 (double_round (1 / 5)) 0))"
    using coords_from_middle_sorted_stable [THEN conjunct1,
        of double_mul double_add 12 2 "double_round (1 / 5)" id] m
    by simp
  have s1': "sorted (map (middle_key int_mul int_add 1 1 2)
      [(1, 1), (1, 0), (0, 1), (2, 1), (0, 0), (2, 0)])"
    using s1 unfolding i .
  show ?thesis
    by (intro conjI) (fact i s1' d f s2)+
qed

text \<open>
  The claim C5 as the specification states it, with the centre at the exact halves, fails
  on a grid with an odd count: for three columns and one row (and the integer bias
  \<open>1\<close>) the function returns the cells in the order \<open>(1,0), (0,0), (2,0)\<close>, and the
  specification's key of \<open>(0,0)\<close> is \<open>2\<close>, above the key \<open>1\<close> of \<open>(2,0)\<close> that
  follows it.
\<close>

theorem coords_from_middle_exact_half_counterexample:
  "coords_from_middle id int_mul int_add 3 1 1 0 = [(1, 0), (0, 0), (2, 0)]
   \<and> \<not> sorted (map (spec_middle_key 3 1 1) (coords_from_middle id int_mul int_add 3 1 1 0))"
proof -
  have r: "py_range 3 = [0, 1, 2]" "py_range 1 = [0]"
    by (simp_all add: py_range_def upto.simps)
  have m: "py_int (3 / 2) = 1" "py_int (1 / 2) = 0"
    using py_int_half [of 3] py_int_half [of 1] by simp_all
  have c: "coords_from_middle id int_mul int_add 3 1 1 0 = [(1, 0), (0, 0), (2, 0)]"
    by (simp add: coords_from_middle_def shuffle_first_items_def Let_def r m middle_key_def
        int_mul_def int_add_def)
  have "\<not> sorted (map (spec_middle_key 3 1 1) [(1, 0), (0, 0), (2, 0)])"
    by (simp add: spec_middle_key_def)
  then show ?thesis
    using c by simp
qed

text \<open>
  C6. For \<open>x_count \<ge> 1\<close> and \<open>y_count \<ge> 1\<close>, every \<open>y_bias\<close> (in any arithmetic) and
  \<open>shuffle_first\<close> and every outcome of the shuffle (any function that rearranges
  its argument), the result holds \<open>x_count * y_count\<close> pairs, and each pair \<open>(x, y)\<close>
  with \<open>0 \<le> x < x_count\<close> and \<open>0 \<le> y < y_count\<close> exactly once.
\<close>

theorem coords_from_middle_permutation:
  assumes "\<And>xs. mset (shuffle xs) = mset xs"
    and "1 \<le> x_count" and "1 \<le> y_count"
  shows "mset (coords_from_middle shuffle mul add x_count y_count y_bias shuffle_first)
           = mset (List.product (py_range x_count) (py_range y_count))
         \<and> int (length (coords_from_middle shuffle mul add x_count y_count y_bias shuffle_first))
           = x_count * y_count
         \<and> distinct (coords_from_middle shuffle mul add x_count y_count y_bias shuffle_first)
         \<and> set (coords_from_middle shuffle mul add x_count y_count y_bias shuffle_first)
           = {0..<x_count} \<times> {0..<y_count}"
proof -
  let ?grid = "List.product (py_range x_count) (py_range y_count)"
  let ?res = "coords_from_middle shuffle mul add x_count y_count y_bias shuffle_first"
  have m: "mset ?res = mset ?grid"
    using mset_shuffle_first_items [of shuffle, OF assms(1)]
    by (simp add: coords_from_middle_def Let_def)
  have l: "int (length ?res) = x_count * y_count"
    using length_grid [of x_count y_count] assms(2,3) mset_eq_length [OF m] by simp
  have d: "distinct ?res"
    using distinct_grid [of x_count y_count] mset_eq_imp_distinct_iff [OF m] by simp
  have s: "set ?res = {0..<x_count} \<times> {0..<y_count}"
    using set_grid [of x_count y_count] mset_eq_setD [OF m] by simp
  from m l d s show ?thesis by simp
qed

theorem coords_from_middle_permutation_witness:
  "coords_from_middle rev int_mul int_add 2 2 1 3 = [(1, 0), (0, 1), (1, 1), (0, 0)]
   \<and> int (length (coords_from_middle rev int_mul int_add 2 2 1 3)) = 2 * 2
   \<and> distinct (coords_from_middle rev int_mul int_add 2 2 1 3)
   \<and> set (coords_from_middle rev int_mul int_add 2 2 1 3) = {0..<2} \<times> {0..<2}"
proof -
  have r: "py_range 2 = [0, 1]"
    by (simp add: py_range_def upto.simps)
  have m: "py_int (2 / 2) = 1"
    using py_int_half [of 2] by simp
  have c: "coords_from_middle rev int_mul int_add 2 2 1 3 = [(1, 0), (0, 1), (1, 1), (0, 0)]"
    using m by (simp add: coords_from_middle_def shuffle_first_items_def Let_def r
        middle_key_def int_mul_def int_add_def py_slice_to_def py_slice_from_def)
  have "\<And>xs :: (int \<times> int) list. mset (rev xs) = mset xs" by simp
  then show ?thesis
    using c coords_from_middle_permutation [of rev 2 2 int_mul int_add 1 3] by simp
qed

section \<open>Properties of the assignment loop\<close>

lemma nat_py_int_quarter: "nat (py_int (of_nat j / 4)) = j div 4"
proof -
  have "\<lfloor>(of_nat j :: rat) / of_nat 4\<rfloor> = of_nat (j div 4)"
    by (rule floor_divide_of_nat_eq)
  then show ?thesis by (simp add: py_int_def)
qed

lemma set_rotation_group: "set (rotation_group j) = {i. i div 4 = j div 4}"
proof -
  have "set (rotation_group j) = {j div 4 * 4 ..< j div 4 * 4 + 4}"
    by (auto simp: rotation_group_def nat_py_int_quarter)
  also have "\<dots> = {i. i div 4 = j div 4}"
    by auto
  finally show ?thesis .
qed

lemma choose_tile_no_reuse:
  assumes "choose_tile False rotate_on available m = Inr (j, available')"
  shows "j \<in> available \<and> j \<in> set m
         \<and> available' = available - (if rotate_on then {i. i div 4 = j div 4} else {j})"
proof -
  from assms obtain j0 where f: "find (\<lambda>j. j \<in> available) m = Some j0"
    by (auto simp: choose_tile_def split: option.splits)
  then have "j0 \<in> available" "j0 \<in> set m"
    by (auto simp: find_Some_iff)
  with assms f show ?thesis
    by (auto simp: choose_tile_def Let_def set_rotation_group)
qed

lemma choose_tile_reuse:
  "choose_tile True rotate_on available m = Inr (j, available')
   \<longleftrightarrow> m \<noteq> [] \<and> j = hd m \<and> available' = available"
  by (cases m) (auto simp: choose_tile_def)

lemma assemble_indices_available:
  "p \<in> set (fst (assemble False rotate_on tiles names available cells))
   \<Longrightarrow> tile_index p \<in> available"
proof (induction cells arbitrary: available)
  case Nil
  then show ?case by simp
next
  case (Cons c rest)
  obtain m b where c: "c = (m, b)" by (cases c)
  show ?case
  proof (cases "available = {}")
    case True
    with Cons.prems c show ?thesis by simp
  next
    case False
    show ?thesis
    proof (cases "choose_tile False rotate_on available m")
      case (Inl e)
      with Cons.prems c False show ?thesis by simp
    next
      case (Inr r)
      obtain j available' where r: "r = (j, available')" by (cases r)
      from Inr r have ch: "j \<in> available"
        "available' = available - (if rotate_on then {i. i div 4 = j div 4} else {j})"
        using choose_tile_no_reuse by blast+
      show ?thesis
      proof (cases "j < length tiles \<and> j < length names")
        case True
        with Cons.prems c False Inr r
        have "tile_index p = j
              \<or> p \<in> set (fst (assemble False rotate_on tiles names available' rest))"
          by (auto split: prod.splits)
        then show ?thesis
          using Cons.IH [of available'] ch by auto
      next
        case F: False
        with Cons.prems c False Inr r show ?thesis by auto
      qed
    qed
  qed
qed

lemma assemble_no_reuse_distinct:
  "distinct (map (\<lambda>p. if rotate_on then tile_index p div 4 else tile_index p)
       (fst (assemble False rotate_on tiles names available cells)))"
proof -
  define key :: "nat \<Rightarrow> nat" where "key = (\<lambda>i. if rotate_on then i div 4 else i)"
  have "distinct (map (\<lambda>p. key (tile_index p))
       (fst (assemble False rotate_on tiles names available cells)))"
  proof (induction cells arbitrary: available)
    case Nil
    then show ?case by simp
  next
    case (Cons c rest)
    obtain m b where c: "c = (m, b)" by (cases c)
    show ?case
    proof (cases "available = {}")
      case True
      with c show ?thesis by simp
    next
      case False
      show ?thesis
      proof (cases "choose_tile False rotate_on available m")
        case (Inl e)
        with c False show ?thesis by simp
      next
        case (Inr r)
        obtain j available' where r: "r = (j, available')" by (cases r)
        from Inr r have ch:
          "available' = available - (if rotate_on then {i. i div 4 = j div 4} else {j})"
          using choose_tile_no_reuse by blast
        show ?thesis
        proof (cases "j < length tiles \<and> j < length names")
          case True
          let ?rest = "fst (assemble False rotate_on tiles names available' rest)"
          have fresh: "key (tile_index p) \<noteq> key j" if "p \<in> set ?rest" for p
            using assemble_indices_available [OF that] ch
            by (auto simp: key_def split: if_splits)
          have "fst (assemble False rotate_on tiles names available (c # rest))
                = \<lparr>tile_index = j, tile = tiles ! j, tile_name = names ! j, cell_box = b\<rparr>
                    # ?rest"
            using c False Inr r True by (simp split: prod.splits)
          moreover have "key j \<notin> (\<lambda>p. key (tile_index p)) ` set ?rest"
            using fresh by force
          ultimately show ?thesis
            using Cons.IH [of available'] by simp
        next
          case F: False
          with c False Inr r show ?thesis by auto
        qed
      qed
    qed
  qed
  then show ?thesis by (simp add: key_def)
qed

lemma inj_group_of: "inj (\<lambda>d::nat. {i. i div 4 = d})"
proof (rule injI)
  fix a b :: nat
  assume "{i. i div 4 = a} = {i. i div 4 = b}"
  moreover have "a * 4 \<in> {i. i div 4 = a}" by simp
  ultimately have "a * 4 \<in> {i. i div 4 = b}" by blast
  then show "a = b" by simp
qed

text \<open>
  C1. In a run without reuse, no two emitted assignments reference the same rotation
  group when rotation is on (the group of an index \<open>j\<close> is the set of the four indices
  \<open>int(j/4)*4 + k\<close>, \<open>k = 0..3\<close>, that is the indices \<open>i\<close> with \<open>i div 4 = j div 4\<close>),
  and no two reference the same tile index when rotation is off. It holds for every
  list of rankings and every starting availability set, and also for the assignments
  emitted before an exception.
\<close>

theorem no_reuse_never_repeats_group:
  assumes "\<not> reuse"
  shows "(rotate_on \<longrightarrow>
            distinct (map (\<lambda>p. set (rotation_group (tile_index p)))
              (fst (assemble reuse rotate_on tiles names available cells))))
         \<and> (\<not> rotate_on \<longrightarrow>
            distinct (map tile_index
              (fst (assemble reuse rotate_on tiles names available cells))))"
proof (cases rotate_on)
  case True
  let ?placed = "fst (assemble False True tiles names available cells)"
  have d: "distinct (map (\<lambda>p. tile_index p div 4) ?placed)"
    using assemble_no_reuse_distinct [of True tiles names available cells] by simp
  have "inj_on (\<lambda>d::nat. {i. i div 4 = d}) (set (map (\<lambda>p. tile_index p div 4) ?placed))"
    using inj_group_of by (rule inj_on_subset) simp
  with d have "distinct (map (\<lambda>d::nat. {i. i div 4 = d}) (map (\<lambda>p. tile_index p div 4) ?placed))"
    by (simp only: distinct_map)
  then have "distinct (map (\<lambda>p. set (rotation_group (tile_index p))) ?placed)"
    by (simp add: set_rotation_group comp_def)
  with True assms show ?thesis by simp
next
  case False
  with assms assemble_no_reuse_distinct [of False tiles names available cells]
  show ?thesis by simp
qed

lemma assemble_reuse_top:
  "map tile_index (fst (assemble True rotate_on tiles names available cells))
     = map (\<lambda>c. hd (fst c))
         (take (length (fst (assemble True rotate_on tiles names available cells))) cells)
   \<and> list_all (\<lambda>c. fst c \<noteq> [])
         (take (length (fst (assemble True rotate_on tiles names available cells))) cells)"
proof (induction cells)
  case Nil
  then show ?case by simp
next
  case (Cons c rest)
  obtain m b where c: "c = (m, b)" by (cases c)
  show ?case
  proof (cases "available \<noteq> {} \<and> m \<noteq> [] \<and> hd m < length tiles \<and> hd m < length names")
    case True
    then have ch: "choose_tile True rotate_on available m = Inr (hd m, available)"
      by (simp add: choose_tile_reuse)
    have "fst (assemble True rotate_on tiles names available (c # rest))
          = \<lparr>tile_index = hd m, tile = tiles ! hd m, tile_name = names ! hd m, cell_box = b\<rparr>
              # fst (assemble True rotate_on tiles names available rest)"
      using c True ch by (simp split: prod.splits)
    with Cons.IH c True show ?thesis by simp
  next
    case False
    have "fst (assemble True rotate_on tiles names available (c # rest)) = []"
    proof (cases "available = {}")
      case True
      with c show ?thesis by simp
    next
      case ne: False
      show ?thesis
      proof (cases m)
        case Nil
        with c ne show ?thesis by (simp add: choose_tile_def)
      next
        case (Cons j m')
        with False ne have "\<not> (j < length tiles \<and> j < length names)" by simp
        with c ne Cons show ?thesis by (auto simp: choose_tile_def)
      qed
    qed
    then show ?thesis by simp
  qed
qed

text \<open>
  C3. In a run with reuse, the tile index of every emitted assignment is the first
  element of its cell's ranking: the \<open>k\<close>-th assignment belongs to the \<open>k\<close>-th cell,
  whose ranking is not empty, and holds \<open>m[0]\<close>. It holds for every availability set
  and does not depend on the earlier choices.
\<close>

theorem reuse_places_top_ranked:
  assumes "reuse"
  shows "map tile_index (fst (assemble reuse rotate_on tiles names available cells))
     = map (\<lambda>c. hd (fst c))
         (take (length (fst (assemble reuse rotate_on tiles names available cells))) cells)
   \<and> list_all (\<lambda>c. fst c \<noteq> [])
         (take (length (fst (assemble reuse rotate_on tiles names available cells))) cells)"
  using assms assemble_reuse_top [of rotate_on tiles names available cells] by simp

lemma assemble_Cons_cases:
  "fst (assemble reuse rotate_on tiles names available ((m, b) # rest)) = []
   \<or> (\<exists>j available'.
         fst (assemble reuse rotate_on tiles names available ((m, b) # rest))
           = \<lparr>tile_index = j, tile = tiles ! j, tile_name = names ! j, cell_box = b\<rparr>
               # fst (assemble reuse rotate_on tiles names available' rest))"
proof (cases "available = {}")
  case True
  then show ?thesis by simp
next
  case False
  show ?thesis
  proof (cases "choose_tile reuse rotate_on available m")
    case (Inl e)
    with False show ?thesis by simp
  next
    case (Inr r)
    obtain j available' where r: "r = (j, available')" by (cases r)
    show ?thesis
    proof (cases "j < length tiles \<and> j < length names")
      case True
      with False Inr r
      have "fst (assemble reuse rotate_on tiles names available ((m, b) # rest))
           = \<lparr>tile_index = j, tile = tiles ! j, tile_name = names ! j, cell_box = b\<rparr>
               # fst (assemble reuse rotate_on tiles names available' rest)"
        by (simp split: prod.splits)
      then show ?thesis by blast
    next
      case F: False
      with False Inr r show ?thesis by auto
    qed
  qed
qed

lemma assemble_boxes_prefix:
  "map cell_box (fst (assemble reuse rotate_on tiles names available cells))
     = map snd (take (length (fst (assemble reuse rotate_on tiles names available cells))) cells)"
proof (induction cells arbitrary: available)
  case Nil
  then show ?case by simp
next
  case (Cons c rest)
  obtain m b where c: "c = (m, b)" by (cases c)
  from assemble_Cons_cases [of reuse rotate_on tiles names available m b rest]
  show ?case
  proof
    assume "fst (assemble reuse rotate_on tiles names available ((m, b) # rest)) = []"
    with c show ?thesis by simp
  next
    assume "\<exists>j available'.
         fst (assemble reuse rotate_on tiles names available ((m, b) # rest))
           = \<lparr>tile_index = j, tile = tiles ! j, tile_name = names ! j, cell_box = b\<rparr>
               # fst (assemble reuse rotate_on tiles names available' rest)"
    then obtain j available' where
      "fst (assemble reuse rotate_on tiles names available ((m, b) # rest))
           = \<lparr>tile_index = j, tile = tiles ! j, tile_name = names ! j, cell_box = b\<rparr>
               # fst (assemble reuse rotate_on tiles names available' rest)"
      by blast
    with c Cons.IH [of available'] show ?thesis by simp
  qed
qed

lemma assemble_until_exhausted:
  assumes "finite available" and "available \<subseteq> {0..<length tiles}"
    and "length names = length tiles"
    and "list_all (\<lambda>c. available \<subseteq> set (fst c)) cells"
  shows "length (fst (assemble False False tiles names available cells))
           = min (card available) (length cells)
         \<and> snd (assemble False False tiles names available cells)
           = (if card available < length cells then RanOut else Completed)"
  using assms
proof (induction cells arbitrary: available)
  case Nil
  then show ?case by simp
next
  case (Cons c rest)
  obtain m b where c: "c = (m, b)" by (cases c)
  show ?case
  proof (cases "available = {}")
    case True
    with c show ?thesis by simp
  next
    case False
    with Cons.prems c have "\<exists>j. j \<in> set m \<and> j \<in> available" by auto
    then obtain j where f: "find (\<lambda>j. j \<in> available) m = Some j"
      by (cases "find (\<lambda>j. j \<in> available) m") (auto simp: find_None_iff)
    then have ja: "j \<in> available" by (auto simp: find_Some_iff)
    have ch: "choose_tile False False available m = Inr (j, available - {j})"
      using f by (simp add: choose_tile_def)
    have jl: "j < length tiles \<and> j < length names"
      using ja Cons.prems by auto
    let ?r = "assemble False False tiles names (available - {j}) rest"
    have eq: "assemble False False tiles names available (c # rest)
          = (\<lparr>tile_index = j, tile = tiles ! j, tile_name = names ! j, cell_box = b\<rparr> # fst ?r,
             snd ?r)"
      using c False ch jl by (simp add: case_prod_beta)
    have la: "list_all (\<lambda>c. available - {j} \<subseteq> set (fst c)) rest"
      using Cons.prems(4) by (auto simp: list_all_iff)
    have fin: "finite (available - {j})"
      using Cons.prems(1) by simp
    have sub: "available - {j} \<subseteq> {0..<length tiles}"
      using Cons.prems(2) by blast
    have ih: "length (fst ?r) = min (card (available - {j})) (length rest)
        \<and> snd ?r = (if card (available - {j}) < length rest then RanOut else Completed)"
      by (rule Cons.IH [OF fin sub Cons.prems(3) la])
    have cd: "card available = Suc (card (available - {j}))"
      by (rule card.remove [OF Cons.prems(1) ja])
    show ?thesis
      unfolding eq cd using ih by simp
  qed
qed

text \<open>
  C4. Without reuse and without rotation, for a pool of \<open>K\<close> tiles and more than \<open>K\<close>
  cells, each cell's ranking being an arrangement of all pool indices, the loop emits
  exactly \<open>K\<close> assignments, for the first \<open>K\<close> cells of the traversal, and then leaves
  by \<^verbatim>\<open>break\<close> (\<open>RanOut\<close>), not by an exception; the other cells get no tile.
\<close>

theorem exhaustion_fills_pool_size_cells:
  assumes "length names = length tiles"
    and "list_all (\<lambda>c. set (fst c) = {0..<length tiles}) cells"
    and "length tiles < length cells"
  shows "snd (assemble_mosaic False False tiles names cells) = RanOut
         \<and> length (fst (assemble_mosaic False False tiles names cells)) = length tiles
         \<and> map cell_box (fst (assemble_mosaic False False tiles names cells))
             = map snd (take (length tiles) cells)"
proof -
  let ?A = "set [0..<length tiles]"
  have "list_all (\<lambda>c. ?A \<subseteq> set (fst c)) cells"
    using assms(2) by (auto simp: list_all_iff)
  then have r: "length (fst (assemble False False tiles names ?A cells))
           = min (card ?A) (length cells)
         \<and> snd (assemble False False tiles names ?A cells)
           = (if card ?A < length cells then RanOut else Completed)"
    using assms(1) by (intro assemble_until_exhausted) auto
  have l: "length (fst (assemble False False tiles names ?A cells)) = length tiles"
    using r assms(3) by simp
  show ?thesis
    using r l assms(3)
      assemble_boxes_prefix [of False False tiles names ?A cells]
    by (simp add: assemble_mosaic_def)
qed


lemma upt_5: "[0..<5] = [0, 1, 2, 3, 4]"
  by (simp add: upt_rec)

theorem no_reuse_never_repeats_group_witness:
  "map tile_index (fst (assemble False True [10, 11, 12, 13, 14 :: nat]
       [''a'', ''b'', ''c'', ''d'', ''e''] (set [0..<5])
       [([1, 0, 2, 3, 4], 0 :: nat), ([1, 0, 4, 2, 3], 1), ([0, 1, 2, 3, 4], 2)])) = [1, 4]
   \<and> distinct (map (\<lambda>p. set (rotation_group (tile_index p)))
        (fst (assemble False True [10, 11, 12, 13, 14 :: nat]
          [''a'', ''b'', ''c'', ''d'', ''e''] (set [0..<5])
          [([1, 0, 2, 3, 4], 0 :: nat), ([1, 0, 4, 2, 3], 1), ([0, 1, 2, 3, 4], 2)])))
   \<and> map tile_index (fst (assemble False False [10, 11, 12, 13, 14 :: nat]
       [''a'', ''b'', ''c'', ''d'', ''e''] (set [0..<5])
       [([1, 0, 2, 3, 4], 0 :: nat), ([1, 0, 4, 2, 3], 1), ([0, 1, 2, 3, 4], 2)])) = [1, 0, 2]
   \<and> distinct (map tile_index
        (fst (assemble False False [10, 11, 12, 13, 14 :: nat]
          [''a'', ''b'', ''c'', ''d'', ''e''] (set [0..<5])
          [([1, 0, 2, 3, 4], 0 :: nat), ([1, 0, 4, 2, 3], 1), ([0, 1, 2, 3, 4], 2)])))"
proof -
  let ?cells = "[([1, 0, 2, 3, 4], 0 :: nat), ([1, 0, 4, 2, 3], 1), ([0, 1, 2, 3, 4], 2)]"
  let ?tiles = "[10, 11, 12, 13, 14 :: nat]"
  let ?names = "[''a'', ''b'', ''c'', ''d'', ''e'']"
  have a: "map tile_index (fst (assemble False True ?tiles ?names (set [0..<5]) ?cells)) = [1, 4]"
    by (simp add: upt_5 choose_tile_def set_rotation_group insert_Diff_if)
  have b: "map tile_index (fst (assemble False False ?tiles ?names (set [0..<5]) ?cells))
      = [1, 0, 2]"
    by (simp add: upt_5 choose_tile_def insert_Diff_if)
  have "\<not> False" by simp
  from no_reuse_never_repeats_group [OF this, of True ?tiles ?names "set [0..<5]" ?cells]
    no_reuse_never_repeats_group [OF this, of False ?tiles ?names "set [0..<5]" ?cells]
  show ?thesis using a b by simp
qed

theorem reuse_places_top_ranked_witness:
  "map tile_index (fst (assemble True False [10, 11 :: nat] [''a'', ''b''] {0, 1}
       [([1, 0], 0 :: nat), ([1, 0], 1), ([0, 1], 2)])) = [1, 1, 0]
   \<and> map tile_index (fst (assemble True False [10, 11 :: nat] [''a'', ''b''] {0, 1}
       [([1, 0], 0 :: nat), ([1, 0], 1), ([0, 1], 2)]))
     = map (\<lambda>c. hd (fst c)) [([1, 0], 0 :: nat), ([1, 0], 1), ([0, 1], 2)]"
proof -
  let ?cells = "[([1, 0], 0 :: nat), ([1, 0], 1), ([0, 1], 2)]"
  have a: "map tile_index (fst (assemble True False [10, 11 :: nat] [''a'', ''b''] {0, 1} ?cells))
      = [1, 1, 0]"
    by (simp add: choose_tile_def)
  then have "length (fst (assemble True False [10, 11 :: nat] [''a'', ''b''] {0, 1} ?cells)) = 3"
    using length_map [of tile_index
        "fst (assemble True False [10, 11 :: nat] [''a'', ''b''] {0, 1} ?cells)"]
    by simp
  with reuse_places_top_ranked [of True False "[10, 11 :: nat]" "[''a'', ''b'']" "{0, 1}" ?cells]
  show ?thesis using a by simp
qed

theorem exhaustion_fills_pool_size_cells_witness:
  "snd (assemble_mosaic False False [10, 11 :: nat] [''a'', ''b'']
         [([1, 0], 0 :: nat), ([1, 0], 1), ([0, 1], 2)]) = RanOut
   \<and> length (fst (assemble_mosaic False False [10, 11 :: nat] [''a'', ''b'']
         [([1, 0], 0 :: nat), ([1, 0], 1), ([0, 1], 2)])) = 2
   \<and> map tile_index (fst (assemble_mosaic False False [10, 11 :: nat] [''a'', ''b'']
         [([1, 0], 0 :: nat), ([1, 0], 1), ([0, 1], 2)])) = [1, 0]
   \<and> map cell_box (fst (assemble_mosaic False False [10, 11 :: nat] [''a'', ''b'']
         [([1, 0], 0 :: nat), ([1, 0], 1), ([0, 1], 2)])) = [0, 1]"
proof -
  let ?cells = "[([1, 0], 0 :: nat), ([1, 0], 1), ([0, 1], 2)]"
  have u: "[0..<2] = [0, 1]" by (simp add: upt_rec)
  have a: "map tile_index (fst (assemble_mosaic False False [10, 11 :: nat] [''a'', ''b''] ?cells))
      = [1, 0]"
    by (simp add: assemble_mosaic_def u choose_tile_def insert_Diff_if)
  have h1: "length [''a'', ''b''] = length [10, 11 :: nat]" by simp
  have h2: "list_all (\<lambda>c. set (fst c) = {0..<length [10, 11 :: nat]}) ?cells"
    by (simp add: atLeast0_lessThan_Suc insert_commute)
  have h3: "length [10, 11 :: nat] < length ?cells" by simp
  from exhaustion_fills_pool_size_cells [OF h1 h2 h3]
  show ?thesis using a by simp
qed

section \<open>Properties of the ranking\<close>

text \<open>
  C9. For a pool whose \<^verbatim>\<open>color_mode\<close> is neither \<open>RGB\<close> nor \<open>L\<close> the ranking query
  raises \<^verbatim>\<open>UnboundLocalError\<close> for every block (and every pool content): it returns a
  ranking only if the mode is one of the two.
\<close>

theorem ranking_undefined_outside_RGB_L:
  assumes "color_mode (tb_config tb) \<noteq> ''RGB''" and "color_mode (tb_config tb) \<noteq> ''L''"
  shows "best_tile_block_match argsort tb a = Inl UnboundLocalError"
  using assms by (simp add: best_tile_block_match_def)

theorem ranking_undefined_outside_RGB_L_witness:
  "best_tile_block_match argsort_stable
      \<lparr>tb_config = \<lparr>tile_ratio = 1, match_width = 1, tile_width = 4, enlargement = 1,
                     color_mode = ''CMYK'', rotate_tiles = False\<rparr>,
       tb_tiles = [()], tb_tile_names = [''a''],
       tb_tile_array = [[7, 7, 7, 7]]\<rparr> [5, 5, 5, 5] = Inl UnboundLocalError"
  using ranking_undefined_outside_RGB_L [of
      "\<lparr>tb_config = \<lparr>tile_ratio = 1, match_width = 1, tile_width = 4, enlargement = 1,
                     color_mode = ''CMYK'', rotate_tiles = False\<rparr>,
       tb_tiles = [()], tb_tile_names = [''a''],
       tb_tile_array = [[7, 7, 7, 7]]\<rparr>" argsort_stable "[5, 5, 5, 5]"]
  by simp

section \<open>Properties of the configuration\<close>

text \<open>
  C8, as amended. Constructing a \<open>Config\<close> never fails: for all argument values it
  returns the configuration holding them as given. At the level of \<open>Config\<close> a bad
  value shows only later and only for a zero ratio, when reading \<^verbatim>\<open>tile_height\<close>
  raises \<^verbatim>\<open>ZeroDivisionError\<close>.
\<close>

theorem config_construction_never_fails:
  "Config r w m e cm rot
     = Inr \<lparr>tile_ratio = r, match_width = m, tile_width = w, enlargement = e,
            color_mode = cm, rotate_tiles = rot\<rparr>
   \<and> (tile_height \<lparr>tile_ratio = r, match_width = m, tile_width = w, enlargement = e,
            color_mode = cm, rotate_tiles = rot\<rparr> = Inl ZeroDivisionError) = (r = 0)"
  by (simp add: Config_def tile_height_def)

text \<open>
  The claim C8 as stated fails: a configuration with \<^verbatim>\<open>tile_width = 0\<close> and
  \<^verbatim>\<open>tile_ratio = 0\<close> is constructed.
\<close>

theorem config_accepts_invalid_counterexample:
  "Config 0 0 20 8 ''RGB'' False
     = Inr \<lparr>tile_ratio = 0, match_width = 20, tile_width = 0, enlargement = 8,
            color_mode = ''RGB'', rotate_tiles = False\<rparr>"
  by (simp add: Config_def)

end
